theory Spec2Isabelle
  imports Complex_Main "HOL-Library.Word"
begin

unbundle bit_operations_syntax

section \<open>Python values used by the redaction core\<close>

text \<open>
  A Python \<open>str\<close> is modelled as a \<open>string\<close> in which every \<open>char\<close> stands for one
  character (a code point below 256), so that \<open>length\<close> is Python's \<open>len\<close>. Python
  integers are \<open>int\<close>, a \<open>bytes\<close> value is a list of 8-bit words, and an exception that
  leaves a function is a value \<open>Inl\<close> of the result.
\<close>

type_synonym bytes = "8 word list"

datatype py_exception = IndexError | Raised string

text \<open>\<open>str.encode("utf-8")\<close> on code points below 256: one byte below 128, two bytes above.\<close>

definition utf8_char :: "char \<Rightarrow> bytes" where
  "utf8_char c = (let n = (of_char c :: nat) in
     if n < 128 then [of_nat n]
     else [of_nat (192 + n div 64), of_nat (128 + n mod 64)])"

definition utf8_encode :: "string \<Rightarrow> bytes" where
  "utf8_encode s = concat (map utf8_char s)"

text \<open>\<open>str.lower()\<close>: the ASCII capitals and the Latin-1 capitals move up by 32.\<close>

definition lower_char :: "char \<Rightarrow> char" where
  "lower_char c = (let n = (of_char c :: nat) in
     if (65 \<le> n \<and> n \<le> 90) \<or> (192 \<le> n \<and> n \<le> 214) \<or> (216 \<le> n \<and> n \<le> 222)
     then char_of (n + 32) else c)"

definition lower :: "string \<Rightarrow> string" where
  "lower s = map lower_char s"

text \<open>
  Slice assignment \<open>xs[i:j] = r\<close> on a list: a negative index counts from the end, both
  indices are clamped to \<open>0..len(xs)\<close>, and an upper index below the lower one is raised
  to it, so that the assignment is an insertion. It never raises.
\<close>

definition clamp_index :: "int \<Rightarrow> nat \<Rightarrow> nat" where
  "clamp_index i n =
     (if i < 0 then (if i + int n < 0 then 0 else nat (i + int n))
      else if int n < i then n else nat i)"

definition slice_assign :: "'a list \<Rightarrow> int \<Rightarrow> int \<Rightarrow> 'a list \<Rightarrow> 'a list" where
  "slice_assign xs i j r =
     (let n = length xs; lo = clamp_index i n; hi = max lo (clamp_index j n)
      in take lo xs @ r @ drop hi xs)"

section \<open>The content digest: \<open>hashlib.md5(...).hexdigest()\<close>\<close>

definition md5_K :: "32 word list" where
  "md5_K = [
    0xd76aa478, 0xe8c7b756, 0x242070db, 0xc1bdceee,
    0xf57c0faf, 0x4787c62a, 0xa8304613, 0xfd469501,
    0x698098d8, 0x8b44f7af, 0xffff5bb1, 0x895cd7be,
    0x6b901122, 0xfd987193, 0xa679438e, 0x49b40821,
    0xf61e2562, 0xc040b340, 0x265e5a51, 0xe9b6c7aa,
    0xd62f105d, 0x02441453, 0xd8a1e681, 0xe7d3fbc8,
    0x21e1cde6, 0xc33707d6, 0xf4d50d87, 0x455a14ed,
    0xa9e3e905, 0xfcefa3f8, 0x676f02d9, 0x8d2a4c8a,
    0xfffa3942, 0x8771f681, 0x6d9d6122, 0xfde5380c,
    0xa4beea44, 0x4bdecfa9, 0xf6bb4b60, 0xbebfbc70,
    0x289b7ec6, 0xeaa127fa, 0xd4ef3085, 0x04881d05,
    0xd9d4d039, 0xe6db99e5, 0x1fa27cf8, 0xc4ac5665,
    0xf4292244, 0x432aff97, 0xab9423a7, 0xfc93a039,
    0x655b59c3, 0x8f0ccc92, 0xffeff47d, 0x85845dd1,
    0x6fa87e4f, 0xfe2ce6e0, 0xa3014314, 0x4e0811a1,
    0xf7537e82, 0xbd3af235, 0x2ad7d2bb, 0xeb86d391]"

definition md5_s :: "nat list" where
  "md5_s = [7, 12, 17, 22, 7, 12, 17, 22, 7, 12, 17, 22, 7, 12, 17, 22,
            5, 9, 14, 20, 5, 9, 14, 20, 5, 9, 14, 20, 5, 9, 14, 20,
            4, 11, 16, 23, 4, 11, 16, 23, 4, 11, 16, 23, 4, 11, 16, 23,
            6, 10, 15, 21, 6, 10, 15, 21, 6, 10, 15, 21, 6, 10, 15, 21]"

definition md5_pad :: "bytes \<Rightarrow> bytes" where
  "md5_pad msg = (let n = length msg;
                      z = (55 + 64 - n mod 64) mod 64;
                      bits = (of_nat (8 * n) :: 64 word)
                  in msg @ [0x80] @ replicate z 0 @
                     map (\<lambda>i. ucast (drop_bit (8 * i) bits)) [0..<8])"

definition le32 :: "bytes \<Rightarrow> 32 word" where
  "le32 bs = foldr (\<lambda>b acc. ucast b OR push_bit 8 acc) bs 0"

fun chunks :: "nat \<Rightarrow> nat \<Rightarrow> 'a list \<Rightarrow> 'a list list" where
  "chunks 0 k xs = []"
| "chunks (Suc n) k xs = take k xs # chunks n k (drop k xs)"

type_synonym md5_state = "32 word \<times> 32 word \<times> 32 word \<times> 32 word"

definition md5_step :: "32 word list \<Rightarrow> md5_state \<Rightarrow> nat \<Rightarrow> md5_state" where
  "md5_step M st i = (case st of (A, B, C, D) \<Rightarrow>
     let (F, g) =
           (if i < 16 then ((B AND C) OR (NOT B AND D), i)
            else if i < 32 then ((D AND B) OR (NOT D AND C), (5 * i + 1) mod 16)
            else if i < 48 then (B XOR C XOR D, (3 * i + 5) mod 16)
            else (C XOR (B OR NOT D), (7 * i) mod 16));
         F' = F + A + md5_K ! i + M ! g
     in (D, B + word_rotl (md5_s ! i) F', B, C))"

definition md5_block :: "md5_state \<Rightarrow> bytes \<Rightarrow> md5_state" where
  "md5_block st blk = (case st of (a0, b0, c0, d0) \<Rightarrow>
     let M = map le32 (chunks 16 4 blk) in
     case foldl (md5_step M) st [0..<64] of (A, B, C, D) \<Rightarrow>
       (a0 + A, b0 + B, c0 + C, d0 + D))"

definition hex_digit :: "nat \<Rightarrow> char" where
  "hex_digit n = ''0123456789abcdef'' ! (n mod 16)"

definition hex_byte :: "8 word \<Rightarrow> string" where
  "hex_byte b = [hex_digit (unat b div 16), hex_digit (unat b mod 16)]"

definition word_bytes_le :: "32 word \<Rightarrow> bytes" where
  "word_bytes_le w = map (\<lambda>i. ucast (drop_bit (8 * i) w)) [0..<4]"

definition md5_digest_words :: "bytes \<Rightarrow> md5_state" where
  "md5_digest_words msg =
     (let p = md5_pad msg
      in foldl md5_block (0x67452301, 0xefcdab89, 0x98badcfe, 0x10325476)
           (chunks (length p div 64) 64 p))"

definition md5_hexdigest :: "bytes \<Rightarrow> string" where
  "md5_hexdigest msg =
     (case md5_digest_words msg of
        (a, b, c, d) \<Rightarrow> concat (map hex_byte (concat (map word_bytes_le [a, b, c, d]))))"

section \<open>Entities (\<open>PIIEntity\<close>, \<open>EntityInfo\<close>) and the manual redaction\<close>

record PIIEntity =
  ent_text :: string
  ent_label :: string
  ent_confidence :: real
  ent_start :: int
  ent_end :: int

record EntityInfo = PIIEntity +
  info_redacted_text :: "string option"

text \<open>\<open>_generate_replacement\<close>: the replacement fragment of one entity.\<close>

definition generate_replacement :: "'a PIIEntity_scheme \<Rightarrow> string \<Rightarrow> string" where
  "generate_replacement entity method =
     (if method = ''mask'' then ''['' @ ent_label entity @ '']''
      else if method = ''remove'' then ''''
      else if method = ''hash'' then take 8 (md5_hexdigest (utf8_encode (ent_text entity)))
      else if method = ''replace'' then ''['' @ ent_label entity @ '']''
      else ''['' @ ent_label entity @ '']'')"

text \<open>
  The loop of \<open>_redact_manual\<close> over the sorted entities. The safety check compares
  against the length of the original \<open>text\<close>, the splice goes into the working buffer
  \<open>chars\<close>.
\<close>

fun redact_loop :: "string \<Rightarrow> string \<Rightarrow> 'a PIIEntity_scheme list \<Rightarrow> string \<Rightarrow> string" where
  "redact_loop text method [] chars = chars"
| "redact_loop text method (entity # rest) chars =
     (if ent_start entity < 0 \<or> ent_end entity > int (length text)
      then redact_loop text method rest chars
      else redact_loop text method rest
             (slice_assign chars (ent_start entity) (ent_end entity)
                (generate_replacement entity method)))"

text \<open>
  \<open>sorted(entities, key=lambda x: x.start, reverse=True)\<close>: Python's sort is stable and
  \<open>reverse=True\<close> keeps the input order of entities with equal keys, which is the stable
  ascending sort on the negated key.
\<close>

definition sorted_entities :: "'a PIIEntity_scheme list \<Rightarrow> 'a PIIEntity_scheme list" where
  "sorted_entities entities = sort_key (\<lambda>x. - ent_start x) entities"

definition redact_manual :: "string \<Rightarrow> 'a PIIEntity_scheme list \<Rightarrow> string \<Rightarrow> string" where
  "redact_manual text entities method =
     redact_loop text method (sorted_entities entities) text"

text \<open>
  The working buffer in front of each entity, in processing order: the pair
  \<open>(entity, chars)\<close> holds the buffer the loop body sees when it reaches \<open>entity\<close>.
\<close>

fun redact_trace ::
  "string \<Rightarrow> string \<Rightarrow> 'a PIIEntity_scheme list \<Rightarrow> string \<Rightarrow> ('a PIIEntity_scheme \<times> string) list" where
  "redact_trace text method [] chars = []"
| "redact_trace text method (entity # rest) chars =
     (entity, chars) # redact_trace text method rest (redact_loop text method [entity] chars)"

text \<open>
  The preconditions the span redactor is specified under: a span is in bounds when
  \<open>0 \<le> start \<le> end \<le> len(text)\<close>, and two half-open spans overlap when they share a
  position.
\<close>

definition in_bounds :: "string \<Rightarrow> 'a PIIEntity_scheme \<Rightarrow> bool" where
  "in_bounds text e =
     (0 \<le> ent_start e \<and> ent_start e \<le> ent_end e \<and> ent_end e \<le> int (length text))"

definition overlapping :: "'a PIIEntity_scheme \<Rightarrow> 'a PIIEntity_scheme \<Rightarrow> bool" where
  "overlapping a b = (max (ent_start a) (ent_start b) < min (ent_end a) (ent_end b))"

fun non_overlapping :: "'a PIIEntity_scheme list \<Rightarrow> bool" where
  "non_overlapping [] = True"
| "non_overlapping (e # es) = ((\<forall>x \<in> set es. \<not> overlapping e x) \<and> non_overlapping es)"

section \<open>The redaction service\<close>

datatype RedactionMethod = MASK | REMOVE | REPLACE | HASH | SHIFT_DATES

fun method_value :: "RedactionMethod \<Rightarrow> string" where
  "method_value MASK = ''mask''"
| "method_value REMOVE = ''remove''"
| "method_value REPLACE = ''replace''"
| "method_value HASH = ''hash''"
| "method_value SHIFT_DATES = ''shift_dates''"

text \<open>
  \<open>RedactionConfig\<close>, without \<open>output_format\<close> and \<open>device\<close>: the service reads the
  device only to compute a value it never uses.
\<close>

record RedactionConfig =
  cfg_model :: string
  cfg_confidence_threshold :: real
  cfg_use_smart_merging :: bool
  cfg_method :: RedactionMethod
  cfg_date_shift_days :: "int option"
  cfg_entity_types :: "string list option"
  cfg_exclude_entity_types :: "string list option"
  cfg_include_mapping :: bool

record RedactionResult =
  r_original_text :: string
  r_redacted_text :: string
  r_entities :: "EntityInfo list"
  r_entity_count :: int
  r_mapping :: "(string \<times> string) list option"
  r_method :: string
  r_model :: string
  r_confidence_threshold :: real

text \<open>\<open>BatchRedactionResult\<close>, without the measured \<open>processing_time_seconds\<close>.\<close>

record BatchRedactionResult =
  b_results :: "RedactionResult list"
  b_total_items :: int
  b_successful_items :: int
  b_failed_items :: int
  b_total_entities :: int

text \<open>
  The external library \<open>openmed\<close>. \<open>extract_pii\<close> takes the text, the model name, the
  confidence threshold and the merging flag and returns the entities of its result.
  \<open>deidentify\<close> takes the text, the method, the model name, the threshold, the merging
  flag, the keyword \<open>date_shift_days\<close> (\<open>None\<close> when it is not passed) and whether
  \<open>keep_mapping=True\<close> is passed. The attributes of its result that the service reads
  with \<open>getattr\<close> and a default are optional.
\<close>

record DeidentificationResult =
  deidentified_text :: string
  pii_entities :: "EntityInfo list option"
  deid_entities :: "EntityInfo list option"
  deid_mapping :: "(string \<times> string) list option"

record openmed =
  extract_pii :: "string \<Rightarrow> string \<Rightarrow> real \<Rightarrow> bool \<Rightarrow> py_exception + PIIEntity list"
  deidentify :: "string \<Rightarrow> string \<Rightarrow> string \<Rightarrow> real \<Rightarrow> bool \<Rightarrow> int option \<Rightarrow> bool
                 \<Rightarrow> py_exception + DeidentificationResult"

datatype collaborator_call = Call_extract_pii | Call_deidentify

text \<open>\<open>_filter_entities\<close>: \<open>if include_types:\<close> holds for a list that is present and not empty.\<close>

definition filter_entities ::
  "'a PIIEntity_scheme list \<Rightarrow> string list option \<Rightarrow> string list option
   \<Rightarrow> 'a PIIEntity_scheme list" where
  "filter_entities entities include_types exclude_types =
     (let filtered = entities;
          filtered1 = (case include_types of
                         Some (t # ts) \<Rightarrow>
                           [e \<leftarrow> filtered. lower (ent_label e) \<in> set (map lower (t # ts))]
                       | _ \<Rightarrow> filtered);
          filtered2 = (case exclude_types of
                         Some (t # ts) \<Rightarrow>
                           [e \<leftarrow> filtered1. lower (ent_label e) \<notin> set (map lower (t # ts))]
                       | _ \<Rightarrow> filtered1)
      in filtered2)"

definition entity_to_info :: "'a PIIEntity_scheme \<Rightarrow> string option \<Rightarrow> EntityInfo" where
  "entity_to_info entity redacted =
     \<lparr>ent_text = ent_text entity, ent_label = ent_label entity,
      ent_confidence = ent_confidence entity, ent_start = ent_start entity,
      ent_end = ent_end entity, info_redacted_text = redacted\<rparr>"

text \<open>
  \<open>redact_text\<close>. The first component of the result lists the calls made to the
  external library, the second is the returned \<open>RedactionResult\<close> or the exception a
  collaborator raised. \<open>active_model_name\<close> is the service's attribute of that name.
\<close>

definition redact_text ::
  "openmed \<Rightarrow> string \<Rightarrow> string \<Rightarrow> RedactionConfig
   \<Rightarrow> collaborator_call list \<times> (py_exception + RedactionResult)" where
  "redact_text om active_model_name text config =
     (let model_name = (if cfg_model config \<noteq> [] then cfg_model config else active_model_name);
          method = method_value (cfg_method config);
          filtering_needed =
            (cfg_entity_types config \<noteq> None \<or> cfg_exclude_entity_types config \<noteq> None)
      in if filtering_needed \<or> method \<noteq> ''replace'' then
           ([Call_extract_pii],
            case extract_pii om text model_name (cfg_confidence_threshold config)
                   (cfg_use_smart_merging config) of
              Inl e \<Rightarrow> Inl e
            | Inr all_entities \<Rightarrow>
                let filtered_entities =
                      filter_entities all_entities (cfg_entity_types config)
                        (cfg_exclude_entity_types config);
                    redacted = redact_manual text filtered_entities method;
                    final_entities = map (\<lambda>e. entity_to_info e None) filtered_entities
                in Inr \<lparr>r_original_text = text, r_redacted_text = redacted,
                        r_entities = final_entities,
                        r_entity_count = int (length final_entities), r_mapping = None,
                        r_method = method, r_model = model_name,
                        r_confidence_threshold = cfg_confidence_threshold config\<rparr>)
         else
           ([Call_deidentify],
            case deidentify om text method model_name (cfg_confidence_threshold config)
                   (cfg_use_smart_merging config)
                   (if method = ''shift_dates'' then cfg_date_shift_days config else None)
                   (cfg_include_mapping config) of
              Inl e \<Rightarrow> Inl e
            | Inr result \<Rightarrow>
                let entities_raw =
                      (case pii_entities result of
                         Some (x # xs) \<Rightarrow> x # xs
                       | _ \<Rightarrow> (case deid_entities result of Some es \<Rightarrow> es | None \<Rightarrow> []));
                    ents = map (\<lambda>entity. entity_to_info entity (info_redacted_text entity))
                             entities_raw;
                    mapping' =
                      (if cfg_include_mapping config
                       then (case deid_mapping result of
                               Some (kv # kvs) \<Rightarrow> Some (kv # kvs) | _ \<Rightarrow> None)
                       else None)
                in Inr \<lparr>r_original_text = text,
                        r_redacted_text = deidentified_text result, r_entities = ents,
                        r_entity_count = int (length ents), r_mapping = mapping',
                        r_method = method, r_model = model_name,
                        r_confidence_threshold = cfg_confidence_threshold config\<rparr>))"

text \<open>\<open>f"item_{i}"\<close>: the decimal digits of \<open>i\<close>.\<close>

fun nat_to_decimal :: "nat \<Rightarrow> string" where
  "nat_to_decimal n =
     (if n < 10 then [char_of (48 + n)]
      else nat_to_decimal (n div 10) @ [char_of (48 + n mod 10)])"

declare nat_to_decimal.simps [simp del]

definition default_ids :: "nat \<Rightarrow> string list" where
  "default_ids n = map (\<lambda>i. ''item_'' @ nat_to_decimal i) [0..<n]"

text \<open>The result \<open>redact_batch\<close> records for an item whose redaction raised.\<close>

definition fallback_result :: "string \<Rightarrow> RedactionConfig \<Rightarrow> RedactionResult" where
  "fallback_result text config =
     \<lparr>r_original_text = text, r_redacted_text = text, r_entities = [],
      r_entity_count = 0, r_mapping = None, r_method = method_value (cfg_method config),
      r_model = cfg_model config,
      r_confidence_threshold = cfg_confidence_threshold config\<rparr>"

text \<open>
  The loop of \<open>redact_batch\<close> from index \<open>i\<close> on, over the texts that are left, with the
  accumulated \<open>(results, failed, total_entities)\<close>. The handler of a failed item
  formats \<open>ids[i]\<close> for the log before it does anything else, and \<open>ids[i]\<close> raises
  \<open>IndexError\<close> when \<open>i\<close> is not below \<open>len(ids)\<close>; that exception leaves the handler
  and the function.
\<close>

fun batch_loop ::
  "openmed \<Rightarrow> string \<Rightarrow> RedactionConfig \<Rightarrow> string list \<Rightarrow> nat \<Rightarrow> string list
   \<Rightarrow> RedactionResult list \<times> int \<times> int
   \<Rightarrow> py_exception + (RedactionResult list \<times> int \<times> int)" where
  "batch_loop om active config ids i [] acc = Inr acc"
| "batch_loop om active config ids i (text # rest) (results, failed, total_entities) =
     (case snd (redact_text om active text config) of
        Inr result \<Rightarrow>
          batch_loop om active config ids (Suc i) rest
            (results @ [result], failed, total_entities + r_entity_count result)
      | Inl e \<Rightarrow>
          if i < length ids
          then batch_loop om active config ids (Suc i) rest
                 (results @ [fallback_result text config], failed + 1, total_entities)
          else Inl IndexError)"

definition redact_batch ::
  "openmed \<Rightarrow> string \<Rightarrow> string list \<Rightarrow> string list option \<Rightarrow> RedactionConfig
   \<Rightarrow> py_exception + BatchRedactionResult" where
  "redact_batch om active texts ids config =
     (let ids' = (case ids of None \<Rightarrow> default_ids (length texts) | Some l \<Rightarrow> l)
      in case batch_loop om active config ids' 0 texts ([], 0, 0) of
           Inl e \<Rightarrow> Inl e
         | Inr (results, failed, total_entities) \<Rightarrow>
             Inr \<lparr>b_results = results, b_total_items = int (length texts),
                  b_successful_items = int (length texts) - failed,
                  b_failed_items = failed, b_total_entities = total_entities\<rparr>)"

section \<open>The document handler\<close>

text \<open>
  \<open>pathlib.Path(filename)\<close> on a POSIX path: the name is the last component that is
  neither empty nor a single dot; the suffix starts at the last dot of the name when that
  dot is neither its first nor its last character, and the stem is the name without it.
\<close>

fun split_on :: "char \<Rightarrow> string \<Rightarrow> string list" where
  "split_on c [] = [[]]"
| "split_on c (x # xs) =
     (if x = c then [] # split_on c xs
      else (case split_on c xs of p # ps \<Rightarrow> (x # p) # ps | [] \<Rightarrow> [[x]]))"

definition path_name :: "string \<Rightarrow> string" where
  "path_name filename =
     (case rev [p \<leftarrow> split_on (CHR ''/'') filename. p \<noteq> [] \<and> p \<noteq> ''.''] of
        [] \<Rightarrow> [] | p # ps \<Rightarrow> p)"

definition rfind_dot :: "string \<Rightarrow> int" where
  "rfind_dot name =
     (if CHR ''.'' \<in> set name
      then int (length name) - 1 - int (length (takeWhile (\<lambda>c. c \<noteq> CHR ''.'') (rev name)))
      else - 1)"

definition path_suffix :: "string \<Rightarrow> string" where
  "path_suffix filename =
     (let name = path_name filename; i = rfind_dot name
      in if 0 < i \<and> i < int (length name) - 1 then drop (nat i) name else [])"

definition path_stem :: "string \<Rightarrow> string" where
  "path_stem filename =
     (let name = path_name filename; i = rfind_dot name
      in if 0 < i \<and> i < int (length name) - 1 then take (nat i) name else name)"

definition get_file_type :: "string \<Rightarrow> string" where
  "get_file_type filename =
     (let ext = lower (path_suffix filename)
      in if ext \<in> {''.doc'', ''.docx''} then ''docx''
         else dropWhile (\<lambda>c. c = CHR ''.'') ext)"

text \<open>
  The document libraries. \<open>fitz_open\<close> is \<open>fitz.open(stream=..., filetype="pdf")\<close>;
  \<open>fitz_mark_in_place\<close> is the in-place strategy on the opened document (search every
  page for every entity text, add and apply the redaction annotations, serialise) and
  \<open>fitz_reconstruct\<close> the text reconstruction that follows it in the source (new
  document, the redacted text inserted line by line, serialise); \<open>docx_build\<close> builds
  and saves the DOCX. Each returns its bytes or the exception it raised.
\<close>

record 'doc doc_libs =
  fitz_open :: "bytes \<Rightarrow> py_exception + 'doc"
  fitz_mark_in_place :: "'doc \<Rightarrow> EntityInfo list \<Rightarrow> string \<Rightarrow> py_exception + bytes"
  fitz_reconstruct :: "'doc \<Rightarrow> string \<Rightarrow> py_exception + bytes"
  docx_build :: "string \<Rightarrow> py_exception + bytes"

text \<open>
  \<open>_create_redacted_pdf\<close>. After the early return for an empty list, the test
  \<open>if entities:\<close> inside the \<open>try\<close> block is the source's; every exception raised inside
  the block reaches the one handler, which returns the redacted text as a \<open>.txt\<close> file.
\<close>

definition create_redacted_pdf ::
  "'doc doc_libs \<Rightarrow> bytes \<Rightarrow> string \<Rightarrow> string \<Rightarrow> EntityInfo list \<Rightarrow> string
   \<Rightarrow> bytes \<times> string" where
  "create_redacted_pdf libs original_content redacted_text stem entities method =
     (if entities = [] then (original_content, stem @ ''_redacted.pdf'')
      else
        case (case fitz_open libs original_content of
                Inl e \<Rightarrow> Inl e
              | Inr doc \<Rightarrow>
                  if entities \<noteq> [] then fitz_mark_in_place libs doc entities method
                  else fitz_reconstruct libs doc redacted_text) of
          Inr output \<Rightarrow> (output, stem @ ''_redacted.pdf'')
        | Inl e \<Rightarrow> (utf8_encode redacted_text, stem @ ''_redacted.txt''))"

definition create_redacted_docx :: "'doc doc_libs \<Rightarrow> string \<Rightarrow> string \<Rightarrow> bytes \<times> string" where
  "create_redacted_docx libs redacted_text stem =
     (case docx_build libs redacted_text of
        Inr output \<Rightarrow> (output, stem @ ''_redacted.docx'')
      | Inl e \<Rightarrow> (utf8_encode redacted_text, stem @ ''_redacted.txt''))"

text \<open>
  \<open>create_redacted_document\<close>: \<open>entities or []\<close> turns a missing list into the empty
  one, and an output format that is present, not empty and not \<open>same\<close> replaces the file
  type of the name.
\<close>

definition create_redacted_document ::
  "'doc doc_libs \<Rightarrow> bytes \<Rightarrow> string \<Rightarrow> string \<Rightarrow> string option \<Rightarrow> EntityInfo list option
   \<Rightarrow> string \<Rightarrow> bytes \<times> string" where
  "create_redacted_document libs original_content filename redacted_text output_format
     entities method =
     (let file_type0 = get_file_type filename;
          stem = path_stem filename;
          entities' = (case entities of Some es \<Rightarrow> es | None \<Rightarrow> []);
          file_type = (case output_format of
                         Some fmt \<Rightarrow> if fmt \<noteq> [] \<and> fmt \<noteq> ''same'' then fmt else file_type0
                       | None \<Rightarrow> file_type0)
      in if file_type = ''pdf''
         then create_redacted_pdf libs original_content redacted_text stem entities' method
         else if file_type = ''docx'' then create_redacted_docx libs redacted_text stem
         else if file_type \<in> {''txt'', ''md''}
         then (utf8_encode redacted_text,
               stem @ ''_redacted'' @ (if file_type = ''md'' then ''.md'' else ''.txt''))
         else if file_type = ''json''
         then (utf8_encode redacted_text, stem @ ''_redacted.json'')
         else (utf8_encode redacted_text, stem @ ''_redacted.txt''))"

section \<open>Example inputs\<close>

text \<open>An entity with the given text, label and span, for the examples below.\<close>

definition span :: "string \<Rightarrow> string \<Rightarrow> int \<Rightarrow> int \<Rightarrow> PIIEntity" where
  "span t l s e =
     \<lparr>ent_text = t, ent_label = l, ent_confidence = 1, ent_start = s, ent_end = e\<rparr>"

text \<open>
  The configuration with the schema's defaults and a given method; a detection that
  fails on the text \<open>b\<close> and finds nothing elsewhere; a detection that finds \<open>John\<close> at
  \<open>[0,4)\<close>; document libraries whose in-place marking raises, and ones where it works.
\<close>

definition default_config :: "RedactionMethod \<Rightarrow> RedactionConfig" where
  "default_config m =
     \<lparr>cfg_model = ''openmed/OpenMed-PII-ClinicalE5-Small-33M-v1'',
      cfg_confidence_threshold = 0.6, cfg_use_smart_merging = True, cfg_method = m,
      cfg_date_shift_days = None, cfg_entity_types = None,
      cfg_exclude_entity_types = None, cfg_include_mapping = False\<rparr>"

definition failing_on_b :: openmed where
  "failing_on_b =
     \<lparr>extract_pii = (\<lambda>text model threshold merging.
        if text = ''b'' then Inl (Raised ''detection failed'') else Inr []),
      deidentify = (\<lambda>text method model threshold merging shift keep.
        Inl (Raised ''synthesis failed''))\<rparr>"

definition finds_john :: openmed where
  "finds_john =
     \<lparr>extract_pii = (\<lambda>text model threshold merging.
        Inr [span ''John'' ''first_name'' 0 4]),
      deidentify = (\<lambda>text method model threshold merging shift keep.
        Inr \<lparr>deidentified_text = ''Alan Doe'',
             pii_entities = Some [entity_to_info (span ''John'' ''first_name'' 0 4) (Some ''Alan'')],
             deid_entities = None, deid_mapping = None\<rparr>)\<rparr>"

definition marking_fails :: "unit doc_libs" where
  "marking_fails =
     \<lparr>fitz_open = (\<lambda>content. Inr ()),
      fitz_mark_in_place = (\<lambda>doc entities method. Inl (Raised ''search failed'')),
      fitz_reconstruct = (\<lambda>doc text. Inr (utf8_encode ''%PDF-1.7 rebuilt'')),
      docx_build = (\<lambda>text. Inl (Raised ''no docx''))\<rparr>"

definition marking_works :: "unit doc_libs" where
  "marking_works =
     \<lparr>fitz_open = (\<lambda>content. Inr ()),
      fitz_mark_in_place = (\<lambda>doc entities method. Inr (utf8_encode ''%PDF-1.7 marked'')),
      fitz_reconstruct = (\<lambda>doc text. Inr (utf8_encode ''%PDF-1.7 rebuilt'')),
      docx_build = (\<lambda>text. Inl (Raised ''no docx''))\<rparr>"

section \<open>Properties\<close>

lemma redact_loop_append:
  "redact_loop text method (xs @ ys) chars =
     redact_loop text method ys (redact_loop text method xs chars)"
  by (induction xs arbitrary: chars) simp_all

lemma length_hex_bytes: "length (concat (map hex_byte bs)) = 2 * length bs"
  by (induction bs) (simp_all add: hex_byte_def)

lemma length_word_bytes_le: "length (word_bytes_le w) = 4"
  by (simp add: word_bytes_le_def)

lemma length_md5_hexdigest: "length (md5_hexdigest msg) = 32"
proof (cases "md5_digest_words msg")
  case (fields a b c d)
  have "length (concat (map word_bytes_le [a, b, c, d])) = 16"
    by (simp add: length_word_bytes_le)
  then have "length (concat (map hex_byte (concat (map word_bytes_le [a, b, c, d])))) = 32"
    by (simp only: length_hex_bytes)
  then show ?thesis
    by (simp only: md5_hexdigest_def fields prod.case)
qed

lemma hex_digit_in: "hex_digit n \<in> set ''0123456789abcdef''"
  unfolding hex_digit_def by (rule nth_mem) simp

lemma set_hex_bytes: "set (concat (map hex_byte bs)) \<subseteq> set ''0123456789abcdef''"
proof (induction bs)
  case Nil
  show ?case by simp
next
  case (Cons b bs)
  have "set (hex_byte b) \<subseteq> set ''0123456789abcdef''"
    using hex_digit_in [of "unat b div 16"] hex_digit_in [of "unat b mod 16"]
    unfolding hex_byte_def by simp
  with Cons show ?case by simp
qed

lemma set_md5_hexdigest: "set (md5_hexdigest msg) \<subseteq> set ''0123456789abcdef''"
proof (cases "md5_digest_words msg")
  case (fields a b c d)
  show ?thesis
    by (simp only: md5_hexdigest_def fields prod.case) (rule set_hex_bytes)
qed

lemma md5_John: "md5_hexdigest (utf8_encode ''John'') = ''61409aa1fd47d4a5332de23cbf59a36f''"
  by code_simp

text \<open>
  Claim C9. With an empty entity list \<open>_redact_manual\<close> returns the text unchanged, for
  each of the five methods (and for any other method string).
\<close>

theorem redact_manual_no_entities:
  "redact_manual T [] ''mask'' = T \<and> redact_manual T [] ''remove'' = T
   \<and> redact_manual T [] ''replace'' = T \<and> redact_manual T [] ''hash'' = T
   \<and> redact_manual T [] ''shift_dates'' = T \<and> redact_manual T [] method = T"
  by (simp add: redact_manual_def sorted_entities_def)

theorem redact_manual_no_entities_witness:
  "redact_manual ''John Doe'' ([] :: PIIEntity list) ''hash'' = ''John Doe''"
  by (rule redact_manual_no_entities
        [THEN conjunct2, THEN conjunct2, THEN conjunct2, THEN conjunct1])

text \<open>
  Claim C7. For method \<open>hash\<close> the fragment is the first 8 characters of the hexadecimal
  MD5 digest of the entity's text: exactly 8 characters, all of them hexadecimal digits,
  and two entities with the same text get the same fragment, whatever their labels,
  confidences and positions.
\<close>

theorem generate_replacement_hash:
  "generate_replacement e ''hash'' = take 8 (md5_hexdigest (utf8_encode (ent_text e)))
   \<and> length (generate_replacement e ''hash'') = 8
   \<and> set (generate_replacement e ''hash'') \<subseteq> set ''0123456789abcdef''
   \<and> (ent_text e = ent_text e' \<longrightarrow>
        generate_replacement e ''hash'' = generate_replacement e' ''hash'')"
proof -
  have "set (take 8 (md5_hexdigest (utf8_encode (ent_text e)))) \<subseteq> set ''0123456789abcdef''"
    by (rule subset_trans [OF set_take_subset set_md5_hexdigest])
  then show ?thesis
    by (simp add: generate_replacement_def length_md5_hexdigest)
qed

theorem generate_replacement_hash_witness:
  "generate_replacement
     \<lparr>ent_text = ''John'', ent_label = ''first_name'', ent_confidence = 0.9,
      ent_start = 0, ent_end = 4\<rparr> ''hash'' = ''61409aa1''
   \<and> generate_replacement
     \<lparr>ent_text = ''John'', ent_label = ''first_name'', ent_confidence = 0.9,
      ent_start = 0, ent_end = 4\<rparr> ''hash''
     = generate_replacement
     \<lparr>ent_text = ''John'', ent_label = ''name'', ent_confidence = 0.7,
      ent_start = 17, ent_end = 21\<rparr> ''hash''"
  using generate_replacement_hash
    [of "\<lparr>ent_text = ''John'', ent_label = ''first_name'', ent_confidence = 0.9,
          ent_start = 0, ent_end = 4\<rparr>"
        "\<lparr>ent_text = ''John'', ent_label = ''name'', ent_confidence = 0.7,
          ent_start = 17, ent_end = 21\<rparr>"]
    md5_John
  by (simp add: generate_replacement_def)



lemma clamp_index_in_range: "0 \<le> i \<Longrightarrow> i \<le> int n \<Longrightarrow> clamp_index i n = nat i"
  by (simp add: clamp_index_def)

lemma slice_assign_in_range:
  assumes "0 \<le> i" "i \<le> j" "j \<le> int (length xs)"
  shows "slice_assign xs i j r = take (nat i) xs @ r @ drop (nat j) xs"
proof -
  have "clamp_index i (length xs) = nat i" "clamp_index j (length xs) = nat j"
    using assms by (simp_all add: clamp_index_in_range)
  moreover have "max (nat i) (nat j) = nat j"
    using assms by simp
  ultimately show ?thesis
    by (simp add: slice_assign_def Let_def)
qed

lemma redact_loop_filter:
  "redact_loop text method
     [e \<leftarrow> es. \<not> (ent_start e < 0 \<or> ent_end e > int (length text))] chars
   = redact_loop text method es chars"
  by (induction es arbitrary: chars) simp_all

lemma redact_manual_filter:
  "redact_manual text [e \<leftarrow> es. \<not> (ent_start e < 0 \<or> ent_end e > int (length text))] method
   = redact_manual text es method"
  unfolding redact_manual_def sorted_entities_def
  by (simp only: filter_sort [symmetric] redact_loop_filter)

lemma redact_manual_skip:
  assumes "ent_start e < 0 \<or> ent_end e > int (length text)"
  shows "redact_manual text (xs @ e # ys) method = redact_manual text (xs @ ys) method"
proof -
  let ?ok = "\<lambda>e. \<not> (ent_start e < 0 \<or> ent_end e > int (length text))"
  have "filter ?ok (xs @ e # ys) = filter ?ok (xs @ ys)"
    using assms by simp
  then show ?thesis
    using redact_manual_filter [of "text" "xs @ e # ys" "method"]
          redact_manual_filter [of "text" "xs @ ys" "method"]
    by simp
qed

lemma sorted_entities_desc:
  "sorted_wrt (\<lambda>a b. ent_start b \<le> ent_start a) (sorted_entities es)"
proof -
  have "sorted (map (\<lambda>x. - ent_start x) (sorted_entities es))"
    unfolding sorted_entities_def by (rule sorted_sort_key)
  then show ?thesis by (simp add: sorted_map)
qed

lemma set_sorted_entities: "set (sorted_entities es) = set es"
  by (simp add: sorted_entities_def)

lemma sorted_entities_stable:
  "[e \<leftarrow> sorted_entities es. ent_start e = k] = [e \<leftarrow> es. ent_start e = k]"
proof -
  have "[e \<leftarrow> sort_key (\<lambda>x. - ent_start x) es. - ent_start e = - k]
        = [e \<leftarrow> es. - ent_start e = - k]"
    by (rule sort_key_stable)
  then show ?thesis by (simp add: sorted_entities_def)
qed

lemma overlapping_sym: "overlapping a b = overlapping b a"
  by (simp add: overlapping_def max.commute min.commute)

lemma non_overlapping_insort:
  "non_overlapping (insort_key f x xs) = ((\<forall>y \<in> set xs. \<not> overlapping x y) \<and> non_overlapping xs)"
  by (induction xs) (auto simp: overlapping_sym set_insort_key)

lemma non_overlapping_sorted_entities:
  "non_overlapping (sorted_entities es) = non_overlapping es"
  unfolding sorted_entities_def
  by (induction es) (simp_all add: non_overlapping_insort)

lemma sum_list_insort_key:
  "sum_list (map g (insort_key f x xs)) = g x + sum_list (map g (xs :: 'b list))"
  for g :: "'b \<Rightarrow> int"
  by (induction xs) simp_all

lemma sum_list_sorted_entities:
  "sum_list (map g (sorted_entities es)) = sum_list (map g es)" for g :: "'a PIIEntity_scheme \<Rightarrow> int"
  unfolding sorted_entities_def
  by (induction es) (simp_all add: sum_list_insort_key)

lemma remove_loop_length:
  assumes "sorted_wrt (\<lambda>a b. ent_start b \<le> ent_start a) es"
    and "non_overlapping es"
    and "\<forall>e \<in> set es. in_bounds text e"
    and "\<forall>e \<in> set es. ent_end e \<le> int m"
    and "m \<le> length chars"
  shows "int (length (redact_loop text ''remove'' es chars))
         = int (length chars) - (\<Sum>e\<leftarrow>es. ent_end e - ent_start e)"
  using assms
proof (induction es arbitrary: chars m)
  case Nil
  show ?case by simp
next
  case (Cons e es)
  let ?s = "ent_start e" and ?t = "ent_end e"
  have b: "0 \<le> ?s" "?s \<le> ?t" "?t \<le> int (length text)" "?t \<le> int m"
    using Cons.prems by (simp_all add: in_bounds_def)
  have tl: "?t \<le> int (length chars)" using b Cons.prems(5) by simp
  let ?chars' = "take (nat ?s) chars @ drop (nat ?t) chars"
  have step: "redact_loop text ''remove'' (e # es) chars = redact_loop text ''remove'' es ?chars'"
    using b tl by (simp add: slice_assign_in_range generate_replacement_def)
  have len': "int (length ?chars') = int (length chars) - (?t - ?s)"
    using b tl by simp
  have rest: "sorted_wrt (\<lambda>a b. ent_start b \<le> ent_start a) es" "non_overlapping es"
    "\<forall>e \<in> set es. in_bounds text e"
    using Cons.prems by simp_all
  show ?case
  proof (cases "?s = ?t")
    case True
    then have same: "?chars' = chars" by simp
    have "\<forall>x \<in> set es. ent_end x \<le> int m" using Cons.prems(4) by simp
    from Cons.IH [OF rest this Cons.prems(5)] show ?thesis
      using step same True by simp
  next
    case False
    then have lt: "?s < ?t" using b by simp
    have ends: "\<forall>x \<in> set es. ent_end x \<le> int (nat ?s)"
    proof
      fix x assume x: "x \<in> set es"
      have "ent_start x \<le> ?s" using Cons.prems(1) x by simp
      moreover have "\<not> overlapping e x" using Cons.prems(2) x by simp
      ultimately show "ent_end x \<le> int (nat ?s)"
        using lt b by (simp add: overlapping_def max_def min_def split: if_splits)
    qed
    have "nat ?s \<le> length ?chars'" using b tl by simp
    from Cons.IH [OF rest ends this] show ?thesis
      using step len' by simp
  qed
qed

lemma take_eq_mono: "n \<le> m \<Longrightarrow> take m xs = take m ys \<Longrightarrow> take n xs = take n ys"
  by (metis min.absorb1 take_take)

lemma take_eq_length: "take m xs = take m ys \<Longrightarrow> m \<le> length ys \<Longrightarrow> m \<le> length xs"
  by (metis length_take min.absorb2 min.cobounded1)

lemma redact_trace_entities: "map fst (redact_trace text method es chars) = es"
  by (induction es arbitrary: chars) simp_all

lemma redact_trace_prefix:
  assumes "sorted_wrt (\<lambda>a b. ent_end b \<le> ent_start a) es"
    and "\<forall>e \<in> set es. in_bounds text e"
    and "\<forall>e \<in> set es. ent_end e \<le> int m"
    and "take m chars = take m text"
    and "m \<le> length text"
  shows "\<forall>(e, buf) \<in> set (redact_trace text method es chars).
           take (nat (ent_end e)) buf = take (nat (ent_end e)) text"
  using assms
proof (induction es arbitrary: chars m)
  case Nil
  show ?case by simp
next
  case (Cons e es)
  let ?s = "ent_start e" and ?t = "ent_end e"
  have b: "0 \<le> ?s" "?s \<le> ?t" "?t \<le> int (length text)" "?t \<le> int m"
    using Cons.prems by (simp_all add: in_bounds_def)
  have ml: "m \<le> length chars"
    using take_eq_length [OF Cons.prems(4) Cons.prems(5)] .
  have here: "take (nat ?t) chars = take (nat ?t) text"
    using take_eq_mono [OF _ Cons.prems(4), of "nat ?t"] b by simp
  let ?chars' = "take (nat ?s) chars @ generate_replacement e method @ drop (nat ?t) chars"
  have step: "redact_loop text method [e] chars = ?chars'"
    using b ml by (simp add: slice_assign_in_range)
  have le: "nat ?s \<le> length chars" using b ml by simp
  have "take (nat ?s) ?chars' = take (nat ?s) chars"
    using le by simp
  also have "\<dots> = take (nat ?s) text"
    using take_eq_mono [OF _ Cons.prems(4), of "nat ?s"] b by simp
  finally have pre: "take (nat ?s) ?chars' = take (nat ?s) text" .
  have ends: "\<forall>x \<in> set es. ent_end x \<le> int (nat ?s)"
    using Cons.prems(1) b by simp
  have "nat ?s \<le> length text" using b by simp
  from Cons.IH [OF _ _ ends pre this] Cons.prems(1,2)
  have "\<forall>(e, buf) \<in> set (redact_trace text method es ?chars').
           take (nat (ent_end e)) buf = take (nat (ent_end e)) text"
    by simp
  then show ?case using here step by simp
qed

lemma right_to_left:
  assumes "sorted_wrt (\<lambda>a b. ent_start b \<le> ent_start a) es"
    and "non_overlapping es"
    and "\<forall>e \<in> set es. ent_start e < ent_end e"
  shows "sorted_wrt (\<lambda>a b. ent_end b \<le> ent_start a) es"
  using assms
proof (induction es)
  case Nil
  show ?case by simp
next
  case (Cons e es)
  have "\<forall>x \<in> set es. ent_end x \<le> ent_start e"
  proof
    fix x assume x: "x \<in> set es"
    have "ent_start x \<le> ent_start e" "\<not> overlapping e x" "ent_start e < ent_end e"
      using Cons.prems x by simp_all
    then show "ent_end x \<le> ent_start e"
      by (simp add: overlapping_def max_def min_def split: if_splits)
  qed
  then show ?case using Cons by simp
qed

text \<open>
  Claim C3. For every text \<open>T\<close> and every list \<open>E\<close> of in-bounds, pairwise
  non-overlapping entities, the length of \<open>_redact_manual(T, E, "remove")\<close> is the length
  of \<open>T\<close> minus the sum of the span lengths \<open>end - start\<close>.
\<close>

theorem redact_manual_remove_length:
  assumes "\<forall>e \<in> set E. in_bounds T e" and "non_overlapping E"
  shows "int (length (redact_manual T E ''remove''))
         = int (length T) - (\<Sum>e\<leftarrow>E. ent_end e - ent_start e)"
proof -
  have "\<forall>e \<in> set (sorted_entities E). ent_end e \<le> int (length T)"
    using assms(1) by (simp add: set_sorted_entities in_bounds_def)
  moreover have "\<forall>e \<in> set (sorted_entities E). in_bounds T e"
    using assms(1) by (simp add: set_sorted_entities)
  ultimately have "int (length (redact_loop T ''remove'' (sorted_entities E) T))
      = int (length T) - (\<Sum>e\<leftarrow>sorted_entities E. ent_end e - ent_start e)"
    using remove_loop_length [OF sorted_entities_desc, of E T "length T" T]
      assms(2) non_overlapping_sorted_entities [of E] by simp
  then show ?thesis
    by (simp add: redact_manual_def sum_list_sorted_entities)
qed

theorem redact_manual_remove_length_witness:
  "int (length (redact_manual ''John Doe''
          [span ''John'' ''first_name'' 0 4, span ''Doe'' ''last_name'' 5 8] ''remove''))
   = int (length ''John Doe'') - ((4 - 0) + (8 - 5))"
proof -
  have h1: "\<forall>e \<in> set [span ''John'' ''first_name'' 0 4, span ''Doe'' ''last_name'' 5 8].
              in_bounds ''John Doe'' e"
    by (simp add: in_bounds_def span_def)
  have h2: "non_overlapping [span ''John'' ''first_name'' 0 4, span ''Doe'' ''last_name'' 5 8]"
    by (simp add: overlapping_def span_def)
  show ?thesis
    using redact_manual_remove_length [OF h1 h2] by (simp add: span_def)
qed

text \<open>
  Claim C2, as amended. For every entity list, the entities are processed in the order of
  \<open>start\<close> descending, and entities with equal \<open>start\<close> keep their input order (the sort
  is stable and has no tie-break on \<open>end\<close>); the loop visits them in exactly that order.
  For every list of in-bounds, non-empty, pairwise non-overlapping spans the processing
  is strictly right to left: every span processed later ends at or before the start of
  every span processed earlier, and when the loop reaches an entity the working buffer
  still agrees with the original text up to the end of its span, so that no earlier
  replacement has shifted it.
\<close>

theorem redact_manual_processing_order:
  "sorted_wrt (\<lambda>a b. ent_start b \<le> ent_start a) (sorted_entities E)
   \<and> [e \<leftarrow> sorted_entities E. ent_start e = k] = [e \<leftarrow> E. ent_start e = k]
   \<and> map fst (redact_trace T method (sorted_entities E) T) = sorted_entities E
   \<and> ((\<forall>e \<in> set E. in_bounds T e \<and> ent_start e < ent_end e) \<and> non_overlapping E
      \<longrightarrow> sorted_wrt (\<lambda>a b. ent_end b \<le> ent_start a) (sorted_entities E)
          \<and> (\<forall>(e, chars) \<in> set (redact_trace T method (sorted_entities E) T).
                take (nat (ent_end e)) chars = take (nat (ent_end e)) T))"
proof (intro conjI impI)
  show "sorted_wrt (\<lambda>a b. ent_start b \<le> ent_start a) (sorted_entities E)"
    by (rule sorted_entities_desc)
  show "[e \<leftarrow> sorted_entities E. ent_start e = k] = [e \<leftarrow> E. ent_start e = k]"
    by (rule sorted_entities_stable)
  show "map fst (redact_trace T method (sorted_entities E) T) = sorted_entities E"
    by (rule redact_trace_entities)
next
  assume a: "(\<forall>e \<in> set E. in_bounds T e \<and> ent_start e < ent_end e) \<and> non_overlapping E"
  have inb: "\<forall>e \<in> set (sorted_entities E). in_bounds T e"
    and ne: "\<forall>e \<in> set (sorted_entities E). ent_start e < ent_end e"
    using a by (simp_all add: set_sorted_entities)
  have no: "non_overlapping (sorted_entities E)"
    using a by (simp add: non_overlapping_sorted_entities)
  show rl: "sorted_wrt (\<lambda>a b. ent_end b \<le> ent_start a) (sorted_entities E)"
    using right_to_left [OF sorted_entities_desc no ne] .
  have ends: "\<forall>e \<in> set (sorted_entities E). ent_end e \<le> int (length T)"
    using inb by (simp add: in_bounds_def)
  show "\<forall>(e, chars) \<in> set (redact_trace T method (sorted_entities E) T).
          take (nat (ent_end e)) chars = take (nat (ent_end e)) T"
    using redact_trace_prefix [OF rl inb ends, of T "method"] by simp
qed

theorem redact_manual_processing_order_witness:
  "[e \<leftarrow> sorted_entities [span [] ''A'' 2 2, span ''cde'' ''B'' 2 5, span ''f'' ''C'' 5 6].
      ent_start e = 2]
     = [span [] ''A'' 2 2, span ''cde'' ''B'' 2 5]
   \<and> map fst (redact_trace ''abcdef'' ''mask''
        (sorted_entities [span [] ''A'' 2 2, span ''cde'' ''B'' 2 5, span ''f'' ''C'' 5 6])
        ''abcdef'')
     = [span ''f'' ''C'' 5 6, span [] ''A'' 2 2, span ''cde'' ''B'' 2 5]
   \<and> sorted_wrt (\<lambda>a b. ent_end b \<le> ent_start a)
       (sorted_entities [span ''John'' ''first_name'' 0 4, span ''Doe'' ''last_name'' 5 8])
   \<and> list_all (\<lambda>(e, chars). take (nat (ent_end e)) chars = take (nat (ent_end e)) ''John Doe'')
       (redact_trace ''John Doe'' ''mask''
          (sorted_entities [span ''John'' ''first_name'' 0 4, span ''Doe'' ''last_name'' 5 8])
          ''John Doe'')"
proof -
  have tie: "[e \<leftarrow> sorted_entities
                [span [] ''A'' 2 2, span ''cde'' ''B'' 2 5, span ''f'' ''C'' 5 6].
               ent_start e = 2]
     = [span [] ''A'' 2 2, span ''cde'' ''B'' 2 5]"
    using redact_manual_processing_order
      [of "[span [] ''A'' 2 2, span ''cde'' ''B'' 2 5, span ''f'' ''C'' 5 6]" 2
          "''abcdef''" "''mask''", THEN conjunct2, THEN conjunct1]
    by (simp add: span_def)
  have visit: "map fst (redact_trace ''abcdef'' ''mask''
        (sorted_entities [span [] ''A'' 2 2, span ''cde'' ''B'' 2 5, span ''f'' ''C'' 5 6])
        ''abcdef'')
     = [span ''f'' ''C'' 5 6, span [] ''A'' 2 2, span ''cde'' ''B'' 2 5]"
    using redact_manual_processing_order
      [of "[span [] ''A'' 2 2, span ''cde'' ''B'' 2 5, span ''f'' ''C'' 5 6]" 2
          "''abcdef''" "''mask''", THEN conjunct2, THEN conjunct2, THEN conjunct1]
    by (simp add: sorted_entities_def span_def)
  have h: "(\<forall>e \<in> set [span ''John'' ''first_name'' 0 4, span ''Doe'' ''last_name'' 5 8].
              in_bounds ''John Doe'' e \<and> ent_start e < ent_end e)
           \<and> non_overlapping [span ''John'' ''first_name'' 0 4, span ''Doe'' ''last_name'' 5 8]"
    by (simp add: in_bounds_def overlapping_def span_def)
  have "sorted_wrt (\<lambda>a b. ent_end b \<le> ent_start a)
       (sorted_entities [span ''John'' ''first_name'' 0 4, span ''Doe'' ''last_name'' 5 8])
   \<and> (\<forall>(e, chars) \<in> set (redact_trace ''John Doe'' ''mask''
          (sorted_entities [span ''John'' ''first_name'' 0 4, span ''Doe'' ''last_name'' 5 8])
          ''John Doe'').
        take (nat (ent_end e)) chars = take (nat (ent_end e)) ''John Doe'')"
    using redact_manual_processing_order
      [of "[span ''John'' ''first_name'' 0 4, span ''Doe'' ''last_name'' 5 8]" 0
          "''John Doe''" "''mask''", THEN conjunct2, THEN conjunct2, THEN conjunct2, rule_format,
       OF h] .
  then show ?thesis
    using tie visit by (simp only: list_all_iff) blast
qed

text \<open>
  The claim as stated fails on a tie: an empty span and a longer span with the same start,
  in this input order. The empty span is processed first, its replacement is inserted at
  offset 2, and the longer span then replaces that insertion instead of \<open>cde\<close>.
\<close>

theorem redact_manual_tie_counterexample:
  "sorted_entities [span [] ''A'' 2 2, span ''cde'' ''B'' 2 5]
     = [span [] ''A'' 2 2, span ''cde'' ''B'' 2 5]
   \<and> ent_end (span [] ''A'' 2 2) < ent_end (span ''cde'' ''B'' 2 5)
   \<and> redact_trace ''abcdef'' ''mask''
        (sorted_entities [span [] ''A'' 2 2, span ''cde'' ''B'' 2 5]) ''abcdef''
     = [(span [] ''A'' 2 2, ''abcdef''), (span ''cde'' ''B'' 2 5, ''ab[A]cdef'')]
   \<and> redact_manual ''abcdef'' [span [] ''A'' 2 2, span ''cde'' ''B'' 2 5] ''mask''
     = ''ab[B]cdef''"
  by (simp add: sorted_entities_def redact_manual_def span_def slice_assign_def
      clamp_index_def generate_replacement_def)

text \<open>
  Claim C6, as amended. \<open>_redact_manual\<close> is a total function without an error result;
  every entity with \<open>start < 0\<close> or \<open>end > len(text)\<close> is skipped and the output is the
  one obtained without it; in particular an entity with \<open>start > len(text)\<close> and
  \<open>start \<le> end\<close> is skipped.
\<close>

theorem redact_manual_skips_out_of_range:
  "redact_manual T E method
     = redact_manual T [e \<leftarrow> E. \<not> (ent_start e < 0 \<or> ent_end e > int (length T))] method
   \<and> (ent_start e < 0 \<or> ent_end e > int (length T) \<longrightarrow>
        redact_manual T (xs @ e # ys) method = redact_manual T (xs @ ys) method)
   \<and> (ent_start e > int (length T) \<and> ent_start e \<le> ent_end e \<longrightarrow>
        redact_manual T (xs @ e # ys) method = redact_manual T (xs @ ys) method)"
proof (intro conjI impI)
  show "redact_manual T E method
     = redact_manual T [e \<leftarrow> E. \<not> (ent_start e < 0 \<or> ent_end e > int (length T))] method"
    by (rule redact_manual_filter [symmetric])
next
  assume "ent_start e < 0 \<or> ent_end e > int (length T)"
  then show "redact_manual T (xs @ e # ys) method = redact_manual T (xs @ ys) method"
    by (rule redact_manual_skip)
next
  assume "ent_start e > int (length T) \<and> ent_start e \<le> ent_end e"
  then have "ent_start e < 0 \<or> ent_end e > int (length T)" by simp
  then show "redact_manual T (xs @ e # ys) method = redact_manual T (xs @ ys) method"
    by (rule redact_manual_skip)
qed

theorem redact_manual_skips_out_of_range_witness:
  "redact_manual ''abc'' [span ''b'' ''X'' 1 2, span ''zz'' ''Y'' 5 7] ''mask'' = ''a[X]c''
   \<and> redact_manual ''abc'' [span ''b'' ''X'' 1 2, span ''zz'' ''Y'' 5 7] ''mask''
     = redact_manual ''abc'' [span ''b'' ''X'' 1 2] ''mask''"
proof -
  have "redact_manual ''abc'' [span ''b'' ''X'' 1 2] ''mask'' = ''a[X]c''"
    by (simp add: sorted_entities_def redact_manual_def span_def slice_assign_def
        clamp_index_def generate_replacement_def)
  moreover have "ent_start (span ''zz'' ''Y'' 5 7) > int (length ''abc'')
      \<and> ent_start (span ''zz'' ''Y'' 5 7) \<le> ent_end (span ''zz'' ''Y'' 5 7)"
    by (simp add: span_def)
  moreover note redact_manual_skips_out_of_range
      [of "''abc''" "[span ''b'' ''X'' 1 2, span ''zz'' ''Y'' 5 7]" "''mask''"
          "span ''zz'' ''Y'' 5 7" "[span ''b'' ''X'' 1 2]" "[]",
       THEN conjunct2, THEN conjunct2]
  ultimately show ?thesis
    by (simp only: append.simps)
qed

text \<open>
  Without \<open>start \<le> end\<close> the last part fails: the check looks at \<open>end\<close> only, and the slice
  assignment clamps the start to the length of the buffer, which appends the replacement.
\<close>

theorem redact_manual_start_beyond_end_counterexample:
  "ent_start (span [] ''X'' 5 2) > int (length ''abc'')
   \<and> redact_manual ''abc'' [span [] ''X'' 5 2] ''mask'' = ''abc[X]''"
  by (simp add: sorted_entities_def redact_manual_def span_def slice_assign_def
      clamp_index_def generate_replacement_def)

lemma length_default_ids: "length (default_ids n) = n"
  by (simp add: default_ids_def)

lemma batch_loop_isolated:
  assumes "i + length texts \<le> length ids"
  shows "batch_loop om active config ids i texts (results, failed, found) =
           Inr (results @ map (\<lambda>t. case snd (redact_text om active t config) of
                                      Inr r \<Rightarrow> r | Inl e \<Rightarrow> fallback_result t config) texts,
                failed + int (length [t \<leftarrow> texts. isl (snd (redact_text om active t config))]),
                found + (\<Sum>t\<leftarrow>texts. case snd (redact_text om active t config) of
                                      Inr r \<Rightarrow> r_entity_count r | Inl e \<Rightarrow> 0))"
  using assms
proof (induction texts arbitrary: i results failed found)
  case Nil
  show ?case by simp
next
  case (Cons t ts)
  have i: "i < length ids" and rest: "Suc i + length ts \<le> length ids"
    using Cons.prems by simp_all
  show ?case
  proof (cases "snd (redact_text om active t config)")
    case (Inl e)
    then show ?thesis
      using i Cons.IH [OF rest] by simp
  next
    case (Inr r)
    then show ?thesis
      using Cons.IH [OF rest] by simp
  qed
qed

lemma batch_loop_index_error:
  assumes "k < length texts"
    and "length ids \<le> i + k"
    and "isl (snd (redact_text om active (texts ! k) config))"
  shows "batch_loop om active config ids i texts acc = Inl IndexError"
  using assms
proof (induction texts arbitrary: i k acc)
  case Nil
  then show ?case by simp
next
  case (Cons t ts)
  obtain results failed found where acc: "acc = (results, failed, found)"
    by (cases acc) auto
  show ?case
  proof (cases k)
    case 0
    then have "isl (snd (redact_text om active t config))" "\<not> i < length ids"
      using Cons.prems by simp_all
    then show ?thesis
      unfolding acc by (cases "snd (redact_text om active t config)") simp_all
  next
    case (Suc k')
    have later: "k' < length ts" "length ids \<le> Suc i + k'"
      "isl (snd (redact_text om active (ts ! k') config))"
      using Cons.prems Suc by simp_all
    show ?thesis
      unfolding acc
      using Cons.IH [OF later]
      by (cases "snd (redact_text om active t config)") simp_all
  qed
qed

text \<open>
  Claim C10. With an \<open>ids\<close> list that is given and shorter than \<open>texts\<close>, a failure of
  \<open>redact_text\<close> on an item whose index is not below \<open>len(ids)\<close> makes \<open>redact_batch\<close>
  itself raise \<open>IndexError\<close>. With \<open>ids\<close> absent, or at least as long as \<open>texts\<close>, the
  batch returns: every item has its result or its fallback, \<open>failed_items\<close> counts the
  failing items, \<open>successful_items = total_items - failed_items\<close> and \<open>total_entities\<close>
  is the sum of the entity counts, failed items counting 0.
\<close>

theorem redact_batch_needs_enough_ids:
  "(ids = Some l \<and> k < length texts \<and> length l \<le> k
      \<and> isl (snd (redact_text om active (texts ! k) config))
     \<longrightarrow> redact_batch om active texts ids config = Inl IndexError)
   \<and> (ids = None \<or> (ids = Some l \<and> length texts \<le> length l)
     \<longrightarrow> redact_batch om active texts ids config =
          Inr \<lparr>b_results = map (\<lambda>t. case snd (redact_text om active t config) of
                                      Inr r \<Rightarrow> r | Inl e \<Rightarrow> fallback_result t config) texts,
               b_total_items = int (length texts),
               b_successful_items = int (length texts)
                 - int (length [t \<leftarrow> texts. isl (snd (redact_text om active t config))]),
               b_failed_items =
                 int (length [t \<leftarrow> texts. isl (snd (redact_text om active t config))]),
               b_total_entities =
                 (\<Sum>t\<leftarrow>texts. case snd (redact_text om active t config) of
                                Inr r \<Rightarrow> r_entity_count r | Inl e \<Rightarrow> 0)\<rparr>)"
proof (intro conjI impI)
  assume a: "ids = Some l \<and> k < length texts \<and> length l \<le> k
      \<and> isl (snd (redact_text om active (texts ! k) config))"
  then have "batch_loop om active config l 0 texts ([], 0, 0) = Inl IndexError"
    by (intro batch_loop_index_error [of k]) simp_all
  then show "redact_batch om active texts ids config = Inl IndexError"
    using a by (simp add: redact_batch_def)
next
  assume a: "ids = None \<or> (ids = Some l \<and> length texts \<le> length l)"
  let ?ids = "case ids of None \<Rightarrow> default_ids (length texts) | Some l \<Rightarrow> l"
  have "0 + length texts \<le> length ?ids"
    using a by (auto simp: length_default_ids)
  from batch_loop_isolated [OF this, of om active config "[]" 0 0]
  show "redact_batch om active texts ids config =
          Inr \<lparr>b_results = map (\<lambda>t. case snd (redact_text om active t config) of
                                      Inr r \<Rightarrow> r | Inl e \<Rightarrow> fallback_result t config) texts,
               b_total_items = int (length texts),
               b_successful_items = int (length texts)
                 - int (length [t \<leftarrow> texts. isl (snd (redact_text om active t config))]),
               b_failed_items =
                 int (length [t \<leftarrow> texts. isl (snd (redact_text om active t config))]),
               b_total_entities =
                 (\<Sum>t\<leftarrow>texts. case snd (redact_text om active t config) of
                                Inr r \<Rightarrow> r_entity_count r | Inl e \<Rightarrow> 0)\<rparr>"
    by (simp add: redact_batch_def Let_def)
qed


lemma failing_on_b_fails:
  "snd (redact_text failing_on_b active ''b'' (default_config MASK)) = Inl (Raised ''detection failed'')"
  by (simp add: redact_text_def failing_on_b_def default_config_def)

lemma failing_on_b_passes:
  "snd (redact_text failing_on_b active ''a'' (default_config MASK)) =
     Inr \<lparr>r_original_text = ''a'', r_redacted_text = ''a'', r_entities = [],
          r_entity_count = 0, r_mapping = None, r_method = ''mask'',
          r_model = ''openmed/OpenMed-PII-ClinicalE5-Small-33M-v1'',
          r_confidence_threshold = 0.6\<rparr>"
  by (simp add: redact_text_def failing_on_b_def default_config_def filter_entities_def
      redact_manual_def sorted_entities_def)

theorem redact_batch_needs_enough_ids_witness:
  "redact_batch failing_on_b ''m'' [''b'', ''a'', ''b''] (Some [''x'', ''y'']) (default_config MASK)
     = Inl IndexError
   \<and> map_sum id (\<lambda>r. (b_total_items r, b_successful_items r, b_failed_items r,
                      b_total_entities r, map r_redacted_text (b_results r)))
       (redact_batch failing_on_b ''m'' [''b'', ''a'', ''b''] None (default_config MASK))
     = Inr (3, 1, 2, 0, [''b'', ''a'', ''b''])"
proof -
  have "redact_batch failing_on_b ''m'' [''b'', ''a'', ''b''] (Some [''x'', ''y''])
          (default_config MASK) = Inl IndexError"
    using redact_batch_needs_enough_ids
      [of "Some [''x'', ''y'']" "[''x'', ''y'']" 2 "[''b'', ''a'', ''b'']" failing_on_b "''m''"
          "default_config MASK", THEN conjunct1]
    by (simp add: failing_on_b_fails)
  moreover have "map_sum id (\<lambda>r. (b_total_items r, b_successful_items r, b_failed_items r,
                      b_total_entities r, map r_redacted_text (b_results r)))
       (redact_batch failing_on_b ''m'' [''b'', ''a'', ''b''] None (default_config MASK))
     = Inr (3, 1, 2, 0, [''b'', ''a'', ''b''])"
    using redact_batch_needs_enough_ids
      [of None "[]" 0 "[''b'', ''a'', ''b'']" failing_on_b "''m''"
          "default_config MASK", THEN conjunct2]
    by (simp add: failing_on_b_fails failing_on_b_passes fallback_result_def)
  ultimately show ?thesis by simp
qed

text \<open>
  Claim C4. The claim promises that a failure on one item never aborts the batch. With
  \<open>texts = ["a", "b"]\<close>, \<open>ids = ["first"]\<close> and detection failing on \<open>"b"\<close>, the handler
  of the failed item raises while it formats \<open>ids[1]\<close>, and the whole batch is lost.
\<close>

theorem redact_batch_short_ids_aborts:
  "redact_batch failing_on_b ''m'' [''a'', ''b''] (Some [''first'']) (default_config MASK)
     = Inl IndexError"
  by (simp add: redact_batch_def failing_on_b_fails failing_on_b_passes)

lemma method_value_replace: "(method_value m = ''replace'') = (m = REPLACE)"
  by (cases m) simp_all

text \<open>
  Claim C5. \<open>redact_text\<close> calls \<open>deidentify\<close>, and nothing else, exactly when no label
  filter is set and the method is \<open>replace\<close>; in every other case it calls
  \<open>extract_pii\<close>, and nothing else, and its redacted text and entities are those of
  \<open>_redact_manual\<close> and \<open>_entity_to_info\<close> on the entities \<open>_filter_entities\<close> keeps. On
  the delegated path the redacted text is the collaborator's \<open>deidentified_text\<close>.
\<close>

theorem redact_text_strategy:
  "fst (redact_text om active text config) =
     (if cfg_entity_types config = None \<and> cfg_exclude_entity_types config = None
         \<and> method_value (cfg_method config) = ''replace''
      then [Call_deidentify] else [Call_extract_pii])
   \<and> (cfg_entity_types config \<noteq> None \<or> cfg_exclude_entity_types config \<noteq> None
        \<or> method_value (cfg_method config) \<noteq> ''replace''
      \<longrightarrow> map_sum id (\<lambda>r. (r_redacted_text r, r_entities r)) (snd (redact_text om active text config))
          = map_sum id
              (\<lambda>found.
                 (redact_manual text
                    (filter_entities found (cfg_entity_types config)
                       (cfg_exclude_entity_types config))
                    (method_value (cfg_method config)),
                  map (\<lambda>e. entity_to_info e None)
                    (filter_entities found (cfg_entity_types config)
                       (cfg_exclude_entity_types config))))
              (extract_pii om text
                 (if cfg_model config \<noteq> [] then cfg_model config else active)
                 (cfg_confidence_threshold config) (cfg_use_smart_merging config)))
   \<and> (cfg_entity_types config = None \<and> cfg_exclude_entity_types config = None
        \<and> method_value (cfg_method config) = ''replace''
      \<longrightarrow> map_sum id r_redacted_text (snd (redact_text om active text config))
          = map_sum id deidentified_text
              (deidentify om text ''replace''
                 (if cfg_model config \<noteq> [] then cfg_model config else active)
                 (cfg_confidence_threshold config) (cfg_use_smart_merging config) None
                 (cfg_include_mapping config)))"
  by (auto simp: redact_text_def Let_def split: sum.splits)

theorem redact_text_strategy_witness:
  "fst (redact_text finds_john ''m'' ''John Doe'' (default_config MASK)) = [Call_extract_pii]
   \<and> map_sum id r_redacted_text
       (snd (redact_text finds_john ''m'' ''John Doe'' (default_config MASK)))
     = Inr ''[first_name] Doe''
   \<and> fst (redact_text finds_john ''m'' ''John Doe'' (default_config REPLACE)) = [Call_deidentify]
   \<and> map_sum id r_redacted_text
       (snd (redact_text finds_john ''m'' ''John Doe'' (default_config REPLACE)))
     = Inr ''Alan Doe''
   \<and> fst (redact_text finds_john ''m'' ''John Doe''
            ((default_config REPLACE)\<lparr>cfg_entity_types := Some [''FIRST_NAME'']\<rparr>))
     = [Call_extract_pii]"
proof -
  have manual: "redact_manual ''John Doe'' [span ''John'' ''first_name'' 0 4] ''mask''
      = ''[first_name] Doe''"
    by (simp add: redact_manual_def sorted_entities_def span_def slice_assign_def
        clamp_index_def generate_replacement_def)
  show ?thesis
    using redact_text_strategy [of finds_john "''m''" "''John Doe''" "default_config MASK"]
      redact_text_strategy [of finds_john "''m''" "''John Doe''" "default_config REPLACE"]
      redact_text_strategy [of finds_john "''m''" "''John Doe''"
        "(default_config REPLACE)\<lparr>cfg_entity_types := Some [''FIRST_NAME'']\<rparr>"]
    by (simp add: finds_john_def default_config_def filter_entities_def manual
        redact_text_def)
qed

lemma create_redacted_pdf_ignores_reconstruct:
  "create_redacted_pdf (libs\<lparr>fitz_reconstruct := f\<rparr>) content redacted stem es method
   = create_redacted_pdf libs content redacted stem es method"
  by (cases "es = []"; cases "fitz_open libs content") (simp_all add: create_redacted_pdf_def)

lemma create_redacted_document_pdf_branch:
  assumes "get_file_type filename = ''pdf''"
    and "output_format = None \<or> output_format = Some ''same'' \<or> output_format = Some ''pdf''"
  shows "create_redacted_document libs content filename redacted output_format entities method
         = create_redacted_pdf libs content redacted (path_stem filename)
             (case entities of Some es \<Rightarrow> es | None \<Rightarrow> []) method"
  using assms by (auto simp: create_redacted_document_def Let_def)

text \<open>
  Claim C1, as amended. For a PDF input with a non-empty entity list, when opening the
  document or the in-place marking raises, \<open>create_redacted_document\<close> returns the
  redacted text, UTF-8 encoded, with the filename \<open>{stem}_redacted.txt\<close>; when the marking
  succeeds it returns the marked document with \<open>{stem}_redacted.pdf\<close>. The result never
  depends on the reconstruction.
\<close>

theorem create_redacted_document_in_place_failure:
  assumes "get_file_type filename = ''pdf''"
    and "output_format = None \<or> output_format = Some ''same'' \<or> output_format = Some ''pdf''"
    and "es \<noteq> []"
  shows "((\<exists>e. fitz_open libs content = Inl e)
          \<or> (\<exists>doc e. fitz_open libs content = Inr doc
                \<and> fitz_mark_in_place libs doc es method = Inl e)
         \<longrightarrow> create_redacted_document libs content filename redacted output_format (Some es) method
             = (utf8_encode redacted, path_stem filename @ ''_redacted.txt''))
     \<and> (\<forall>doc out. fitz_open libs content = Inr doc
                \<and> fitz_mark_in_place libs doc es method = Inr out
         \<longrightarrow> create_redacted_document libs content filename redacted output_format (Some es) method
             = (out, path_stem filename @ ''_redacted.pdf''))
     \<and> create_redacted_document (libs\<lparr>fitz_reconstruct := f\<rparr>) content filename redacted
         output_format (Some es) method
       = create_redacted_document libs content filename redacted output_format (Some es) method"
  using assms(3)
  by (auto simp: create_redacted_document_pdf_branch [OF assms(1,2)]
      create_redacted_pdf_def split: sum.splits)

lemma report_pdf: "get_file_type ''report.pdf'' = ''pdf''" "path_stem ''report.pdf'' = ''report''"
  by code_simp+

theorem create_redacted_document_in_place_failure_witness:
  "create_redacted_document marking_fails (utf8_encode ''%PDF-1.7 original'') ''report.pdf''
     ''[first_name] Doe'' None (Some [entity_to_info (span ''John'' ''first_name'' 0 4) None])
     ''mask''
   = (utf8_encode ''[first_name] Doe'', ''report_redacted.txt'')
   \<and> create_redacted_document marking_works (utf8_encode ''%PDF-1.7 original'') ''report.pdf''
     ''[first_name] Doe'' None (Some [entity_to_info (span ''John'' ''first_name'' 0 4) None])
     ''mask''
   = (utf8_encode ''%PDF-1.7 marked'', ''report_redacted.pdf'')"
  using create_redacted_document_in_place_failure
      [of "''report.pdf''" None "[entity_to_info (span ''John'' ''first_name'' 0 4) None]"
          marking_fails "utf8_encode ''%PDF-1.7 original''" "''mask''" "''[first_name] Doe''"]
    create_redacted_document_in_place_failure
      [of "''report.pdf''" None "[entity_to_info (span ''John'' ''first_name'' 0 4) None]"
          marking_works "utf8_encode ''%PDF-1.7 original''" "''mask''" "''[first_name] Doe''"]
  by (simp add: report_pdf marking_fails_def marking_works_def)

text \<open>
  The claim as stated fails: here the marking raises and the reconstruction would
  succeed, yet the result is the \<open>.txt\<close> payload, not a PDF.
\<close>

theorem create_redacted_document_no_reconstruction_counterexample:
  "fitz_mark_in_place marking_fails ()
     [entity_to_info (span ''John'' ''first_name'' 0 4) None] ''mask''
     = Inl (Raised ''search failed'')
   \<and> fitz_reconstruct marking_fails () ''[first_name] Doe'' = Inr (utf8_encode ''%PDF-1.7 rebuilt'')
   \<and> create_redacted_document marking_fails (utf8_encode ''%PDF-1.7 original'') ''report.pdf''
       ''[first_name] Doe'' None (Some [entity_to_info (span ''John'' ''first_name'' 0 4) None])
       ''mask''
     = (utf8_encode ''[first_name] Doe'', ''report_redacted.txt'')
   \<and> ''report_redacted.txt'' \<noteq> ''report_redacted.pdf''"
  by (simp add: create_redacted_document_def create_redacted_pdf_def report_pdf
      marking_fails_def)

text \<open>
  Claim C8. With an empty entity list \<open>_create_redacted_pdf\<close> returns the original
  bytes unchanged and the filename \<open>{stem}_redacted.pdf\<close>, whatever the libraries would
  do; so does \<open>create_redacted_document\<close> for a file of type \<open>pdf\<close> whose entity list is
  missing or empty, when no other output format is forced.
\<close>

theorem create_redacted_document_no_entities:
  "create_redacted_pdf libs content redacted stem [] method = (content, stem @ ''_redacted.pdf'')
   \<and> (get_file_type filename = ''pdf''
        \<and> (output_format = None \<or> output_format = Some ''same'' \<or> output_format = Some ''pdf'')
        \<and> (entities = None \<or> entities = Some [])
      \<longrightarrow> create_redacted_document libs content filename redacted output_format entities method
          = (content, path_stem filename @ ''_redacted.pdf''))"
proof (intro conjI impI)
  show "create_redacted_pdf libs content redacted stem [] method
        = (content, stem @ ''_redacted.pdf'')"
    by (simp add: create_redacted_pdf_def)
next
  assume a: "get_file_type filename = ''pdf''
        \<and> (output_format = None \<or> output_format = Some ''same'' \<or> output_format = Some ''pdf'')
        \<and> (entities = None \<or> entities = Some [])"
  then have "(case entities of Some es \<Rightarrow> es | None \<Rightarrow> []) = []"
    by auto
  then show "create_redacted_document libs content filename redacted output_format entities
               method = (content, path_stem filename @ ''_redacted.pdf'')"
    using a by (simp add: create_redacted_document_pdf_branch create_redacted_pdf_def)
qed

theorem create_redacted_document_no_entities_witness:
  "create_redacted_document marking_fails (utf8_encode ''%PDF-1.7 original'') ''report.pdf''
     ''John Doe'' None (Some []) ''mask''
   = (utf8_encode ''%PDF-1.7 original'', ''report_redacted.pdf'')
   \<and> create_redacted_document marking_works (utf8_encode ''%PDF-1.7 original'') ''report.pdf''
     ''John Doe'' (Some ''same'') None ''hash''
   = (utf8_encode ''%PDF-1.7 original'', ''report_redacted.pdf'')"
  using create_redacted_document_no_entities
      [of marking_fails "utf8_encode ''%PDF-1.7 original''" "''John Doe''" "''report''"
          "''mask''" "''report.pdf''" None "Some []"]
    create_redacted_document_no_entities
      [of marking_works "utf8_encode ''%PDF-1.7 original''" "''John Doe''" "''report''"
          "''hash''" "''report.pdf''" "Some ''same''" None]
  by (simp add: report_pdf)

end
